theory Spec2Isabelle
  imports Complex_Main "HOL-Library.Sublist"
begin

section \<open>Configuration constants of \<^verbatim>\<open>instagram.py\<close>\<close>

definition ALLOWED :: string where
  "ALLOWED = ''abcdefghijklmnopqrstuvwxyz0123456789._''"

definition MIN_LEN :: int where
  "MIN_LEN = 1"

definition MAX_LEN :: int where
  "MAX_LEN = 4"

definition CHECKPOINT_FILE :: string where
  "CHECKPOINT_FILE = ''.instagram_checkpoint.json''"

section \<open>Python values and exceptions\<close>

text \<open>
  The values \<^verbatim>\<open>json.load\<close> can return, which are also the values the global
  \<^verbatim>\<open>last_checked\<close> and the argument \<^verbatim>\<open>start_after\<close> can hold. A dict is an
  association list looked up with \<open>map_of\<close>.
\<close>

datatype pyval =
    PNone
  | PBool bool
  | PInt int
  | PFloat real
  | PStr string
  | PList "pyval list"
  | PDict "(string \<times> pyval) list"

datatype pyexn =
    ValueError
  | AttributeError
  | JSONDecodeError
  | OSError
  | RequestException

section \<open>Username rules\<close>

text \<open>
  \<^verbatim>\<open>is_valid_instagram_username\<close>, with the three module constants as parameters.
  \<^verbatim>\<open>startswith\<close>, \<^verbatim>\<open>endswith\<close> and \<^verbatim>\<open>".." in username\<close> are \<open>prefix\<close>,
  \<open>suffix\<close> and \<open>sublist\<close> (a contiguous run); the final loop is \<open>list_all\<close>.
\<close>

definition is_valid_instagram_username :: "string \<Rightarrow> int \<Rightarrow> int \<Rightarrow> string \<Rightarrow> bool" where
  "is_valid_instagram_username allowed min_len max_len username =
     (if \<not> (min_len \<le> int (length username) \<and> int (length username) \<le> max_len) then False
      else if prefix ''.'' username \<or> suffix ''.'' username then False
      else if sublist ''..'' username then False
      else list_all (\<lambda>c. c \<in> set allowed) username)"

section \<open>Username generator\<close>

text \<open>
  \<^verbatim>\<open>itertools.product(ALLOWED, repeat=length)\<close>: all tuples of the given length, the
  last position varying fastest. A negative \<^verbatim>\<open>repeat\<close> raises \<^verbatim>\<open>ValueError\<close>.
\<close>

fun product :: "'a list \<Rightarrow> nat \<Rightarrow> 'a list list" where
  "product xs 0 = [[]]"
| "product xs (Suc n) = concat (map (\<lambda>x. map ((#) x) (product xs n)) xs)"

definition itertools_product :: "'a list \<Rightarrow> int \<Rightarrow> pyexn + 'a list list" where
  "itertools_product xs repeat =
     (if repeat < 0 then Inl ValueError else Inr (product xs (nat repeat)))"

text \<open>
  The inner \<^verbatim>\<open>for combo in ...\<close> loop of \<^verbatim>\<open>generate_usernames\<close>. It returns the
  usernames yielded and the value of the flag \<^verbatim>\<open>started\<close> when the loop ends.
\<close>

fun inner_loop ::
  "string \<Rightarrow> int \<Rightarrow> int \<Rightarrow> pyval \<Rightarrow> bool \<Rightarrow> string list \<Rightarrow> string list \<times> bool" where
  "inner_loop allowed min_len max_len start_after started [] = ([], started)"
| "inner_loop allowed min_len max_len start_after started (username # rest) =
     (if \<not> is_valid_instagram_username allowed min_len max_len username
      then inner_loop allowed min_len max_len start_after started rest
      else if \<not> started
      then (if PStr username = start_after
            then inner_loop allowed min_len max_len start_after True rest
            else inner_loop allowed min_len max_len start_after started rest)
      else (let (ys, started') = inner_loop allowed min_len max_len start_after started rest
            in (username # ys, started')))"

text \<open>
  The outer \<^verbatim>\<open>for length in range(MIN_LEN, MAX_LEN + 1)\<close> loop. A generator yields
  a finite list of usernames and then either ends (\<open>None\<close>) or raises (\<open>Some e\<close>).
\<close>

fun outer_loop ::
  "string \<Rightarrow> int \<Rightarrow> int \<Rightarrow> pyval \<Rightarrow> bool \<Rightarrow> int list \<Rightarrow> string list \<times> pyexn option" where
  "outer_loop allowed min_len max_len start_after started [] = ([], None)"
| "outer_loop allowed min_len max_len start_after started (l # ls) =
     (case itertools_product allowed l of
        Inl e \<Rightarrow> ([], Some e)
      | Inr combos \<Rightarrow>
          (let (ys, started') = inner_loop allowed min_len max_len start_after started combos;
               (zs, e) = outer_loop allowed min_len max_len start_after started' ls
           in (ys @ zs, e)))"

definition generate_usernames ::
  "string \<Rightarrow> int \<Rightarrow> int \<Rightarrow> pyval \<Rightarrow> string list \<times> pyexn option" where
  "generate_usernames allowed min_len max_len start_after =
     outer_loop allowed min_len max_len start_after (start_after = PNone) [min_len..max_len]"

section \<open>The order of the enumeration\<close>

text \<open>
  \<^verbatim>\<open>allowed.index(c)\<close>: the position of the first occurrence of a character.
\<close>

fun index_of :: "'a list \<Rightarrow> 'a \<Rightarrow> nat" where
  "index_of [] c = 0"
| "index_of (x # xs) c = (if x = c then 0 else Suc (index_of xs c))"

fun lex_less :: "nat list \<Rightarrow> nat list \<Rightarrow> bool" where
  "lex_less [] [] = False"
| "lex_less [] (j # js) = True"
| "lex_less (i # is) [] = False"
| "lex_less (i # is) (j # js) = (i < j \<or> (i = j \<and> lex_less is js))"

definition username_less :: "string \<Rightarrow> string \<Rightarrow> string \<Rightarrow> bool" where
  "username_less allowed u v =
     (length u < length v \<or>
      (length u = length v \<and> lex_less (map (index_of allowed) u) (map (index_of allowed) v)))"

text \<open>
  The combinations the two nested loops of \<^verbatim>\<open>generate_usernames\<close> visit, in the order
  they visit them, and those among them that pass the validity filter.
\<close>

definition all_combos :: "string \<Rightarrow> int \<Rightarrow> int \<Rightarrow> string list" where
  "all_combos allowed min_len max_len =
     concat (map (\<lambda>l. product allowed (nat l)) [min_len..max_len])"

definition enumeration :: "string \<Rightarrow> int \<Rightarrow> int \<Rightarrow> string list" where
  "enumeration allowed min_len max_len =
     filter (is_valid_instagram_username allowed min_len max_len)
       (all_combos allowed min_len max_len)"

section \<open>Check username availability\<close>

definition USER_AGENTS :: "string list" where
  "USER_AGENTS =
     [''Mozilla/5.0 (Windows NT 10.0; Win64; x64)'',
      ''Mozilla/5.0 (Macintosh; Intel Mac OS X 10_15_7)'',
      ''Mozilla/5.0 (iPhone; CPU iPhone OS 14_0)'',
      ''Mozilla/5.0 (Linux; Android 11)'']"

text \<open>
  \<^verbatim>\<open>check_username\<close>. The network is a parameter: \<open>requests_get url user_agent\<close> is
  either the exception \<^verbatim>\<open>requests.get\<close> raised or the status code of its response.
  \<^verbatim>\<open>random.choice\<close> picks the entry \<open>choice mod 4\<close> of the pool.
\<close>

definition check_username ::
  "(string \<Rightarrow> string \<Rightarrow> pyexn + int) \<Rightarrow> nat \<Rightarrow> string \<Rightarrow> string" where
  "check_username requests_get choice username =
     (let url = ''https://www.instagram.com/'' @ username @ ''/'';
          user_agent = USER_AGENTS ! (choice mod length USER_AGENTS)
      in case requests_get url user_agent of
           Inl e \<Rightarrow> ''error''
         | Inr status_code \<Rightarrow>
             if status_code = 404 then ''available''
             else if status_code = 200 then ''taken''
             else if status_code \<in> {403, 429} then ''blocked''
             else ''unknown'')"

section \<open>The world the program runs in\<close>

text \<open>
  A file is either there with its text, or there and not readable by the process.
\<close>

datatype file_state = Unreadable | Text string

type_synonym filesystem = "string \<rightharpoonup> file_state"

text \<open>
  How one call of \<^verbatim>\<open>save_checkpoint\<close> can go: every step succeeds, \<^verbatim>\<open>open(tmp, "w")\<close>
  raises, \<^verbatim>\<open>json.dump\<close> raises after \<open>n\<close> characters reached the file, or
  \<^verbatim>\<open>os.replace\<close> raises.
\<close>

datatype fault = NoFault | OpenFails | DumpFails nat | ReplaceFails

text \<open>
  What a worker and the orchestrator do, in order. \<open>Recorded u\<close> is the assignment
  \<^verbatim>\<open>last_checked = u\<close>. \<open>Probe u v\<close> is the call \<^verbatim>\<open>check_username(u)\<close>, made while the
  global \<^verbatim>\<open>last_checked\<close> holds \<open>v\<close>; \<open>Probed u r\<close> is its return with result \<open>r\<close>.
\<close>

datatype event =
    Yielded string
  | Recorded string
  | Probe string pyval
  | Probed string string
  | Printed string
  | Appended string
  | Saved pyval
  | Slept nat
  | Slept_random
  | Saver_started
  | Saver_stopped

text \<open>
  What the program does not decide: the \<^verbatim>\<open>json\<close> library, the network, the random
  choices and the faults of the disk. The last three are indexed by a logical time, the
  number of events so far.
\<close>

record env =
  json_dump :: "pyval \<Rightarrow> string"
  json_load :: "string \<Rightarrow> pyexn + pyval"
  requests_get :: "nat \<Rightarrow> string \<Rightarrow> string \<Rightarrow> pyexn + int"
  random_choice :: "nat \<Rightarrow> nat"
  save_fault :: "nat \<Rightarrow> fault"

text \<open>
  The globals \<^verbatim>\<open>last_checked\<close>, \<^verbatim>\<open>_saver_stop\<close> and \<^verbatim>\<open>_saver_thread\<close> (alive or
  not), the file system, the text written to the results file, and the events so far.
\<close>

record world =
  last_checked :: pyval
  saver_stop :: bool
  saver_alive :: bool
  files :: filesystem
  output_file :: string
  trace :: "event list"

definition emit :: "event list \<Rightarrow> world \<Rightarrow> world" where
  "emit es w = w\<lparr>trace := trace w @ es\<rparr>"

section \<open>Checkpoint store\<close>

text \<open>
  \<^verbatim>\<open>data.get("last")\<close>: a dict answers, with \<^verbatim>\<open>None\<close> for a missing key; any other
  value has no attribute \<^verbatim>\<open>get\<close>.
\<close>

definition dict_get :: "pyval \<Rightarrow> string \<Rightarrow> pyexn + pyval" where
  "dict_get data key =
     (case data of
        PDict kvs \<Rightarrow> Inr (case map_of kvs key of None \<Rightarrow> PNone | Some v \<Rightarrow> v)
      | _ \<Rightarrow> Inl AttributeError)"

text \<open>The body of the \<^verbatim>\<open>try\<close> block of \<^verbatim>\<open>load_checkpoint\<close>.\<close>

definition load_checkpoint_try :: "env \<Rightarrow> filesystem \<Rightarrow> pyexn + pyval" where
  "load_checkpoint_try env fs =
     (case fs CHECKPOINT_FILE of
        None \<Rightarrow> Inr PNone
      | Some Unreadable \<Rightarrow> Inl OSError
      | Some (Text t) \<Rightarrow>
          (case json_load env t of
             Inl e \<Rightarrow> Inl e
           | Inr data \<Rightarrow> dict_get data ''last''))"

definition load_checkpoint :: "env \<Rightarrow> filesystem \<Rightarrow> pyval" where
  "load_checkpoint env fs =
     (case load_checkpoint_try env fs of Inl e \<Rightarrow> PNone | Inr v \<Rightarrow> v)"

text \<open>
  \<^verbatim>\<open>save_checkpoint\<close>: the document goes to the temporary file, which then replaces
  the checkpoint file. Every exception is swallowed.
\<close>

definition save_checkpoint :: "env \<Rightarrow> world \<Rightarrow> world" where
  "save_checkpoint env w =
     (let data = PDict [(''last'', last_checked w)];
          tmp = CHECKPOINT_FILE @ ''.tmp'';
          fs = files w;
          fs' = (case save_fault env (length (trace w)) of
                   OpenFails \<Rightarrow> fs
                 | DumpFails n \<Rightarrow> fs(tmp \<mapsto> Text (take n (json_dump env data)))
                 | ReplaceFails \<Rightarrow> fs(tmp \<mapsto> Text (json_dump env data))
                 | NoFault \<Rightarrow> (fs(tmp := None))(CHECKPOINT_FILE \<mapsto> Text (json_dump env data)))
      in emit [Saved (last_checked w)] (w\<lparr>files := fs'\<rparr>))"

definition start_checkpoint_saver :: "world \<Rightarrow> world" where
  "start_checkpoint_saver w =
     (if \<not> saver_alive w
      then emit [Saver_started] (w\<lparr>saver_stop := False, saver_alive := True\<rparr>)
      else w)"

text \<open>
  \<^verbatim>\<open>stop_checkpoint_saver\<close> sets the event the saver thread waits on; the thread then
  leaves its loop.
\<close>

definition stop_checkpoint_saver :: "world \<Rightarrow> world" where
  "stop_checkpoint_saver w =
     emit [Saver_stopped] (w\<lparr>saver_stop := True, saver_alive := False\<rparr>)"

definition handle_exit :: "env \<Rightarrow> world \<Rightarrow> world" where
  "handle_exit env w = save_checkpoint env (stop_checkpoint_saver w)"

section \<open>Worker\<close>

text \<open>
  The \<^verbatim>\<open>if\<close>/\<^verbatim>\<open>elif\<close> chain of \<^verbatim>\<open>worker\<close> on the result of the probe, with the
  random delay that ends an iteration; the branch for \<^verbatim>\<open>"blocked"\<close> leaves by
  \<^verbatim>\<open>continue\<close> and skips that delay. Writing to the results file is taken to
  succeed.
\<close>

definition dispatch :: "env \<Rightarrow> string \<Rightarrow> string \<Rightarrow> world \<Rightarrow> world" where
  "dispatch env username result w =
     (if result = ''available''
      then (let w1 = emit [Printed (''[AVAILABLE] '' @ username)] w;
                w2 = emit [Appended (username @ [CHR 0x0A])]
                       (w1\<lparr>output_file := output_file w1 @ username @ [CHR 0x0A]\<rparr>);
                w3 = save_checkpoint env w2
            in emit [Slept_random] w3)
      else if result = ''taken''
      then emit [Slept_random] (emit [Printed (''[TAKEN] '' @ username)] w)
      else if result = ''blocked''
      then emit [Slept 90] (emit [Printed ''[RATE LIMIT] Sleeping 90 seconds...''] w)
      else emit [Slept_random] w)"

text \<open>One iteration of the loop of \<^verbatim>\<open>worker\<close>, for the username the generator gave.\<close>

definition iteration :: "env \<Rightarrow> string \<Rightarrow> world \<Rightarrow> world" where
  "iteration env username w =
     (let w1 = emit [Yielded username] w;
          w2 = emit [Recorded username] (w1\<lparr>last_checked := PStr username\<rparr>);
          w3 = emit [Probe username (last_checked w2)] w2;
          now = length (trace w3);
          result = check_username (requests_get env now) (random_choice env now) username;
          w4 = emit [Probed username result] w3
      in dispatch env username result w4)"

text \<open>
  One worker, run on the usernames that its calls of \<^verbatim>\<open>next\<close> return and on the way
  the last call ends: \<open>None\<close> is \<^verbatim>\<open>StopIteration\<close>, which makes the worker return;
  any other exception leaves the worker. The trace holds what this worker does; other
  threads are not part of it.
\<close>

fun worker :: "env \<Rightarrow> string list \<times> pyexn option \<Rightarrow> world \<Rightarrow> world \<times> pyexn option" where
  "worker env ([], ending) w = (w, ending)"
| "worker env (username # rest, ending) w = worker env (rest, ending) (iteration env username w)"

fun probes :: "event list \<Rightarrow> string list" where
  "probes [] = []"
| "probes (Probe u v # es) = u # probes es"
| "probes (e # es) = probes es"

section \<open>Main\<close>

text \<open>
  \<^verbatim>\<open>main\<close>. What runs inside the \<^verbatim>\<open>try\<close> block (the pool of workers, next to the
  saver thread) is the parameter \<open>body\<close>: it gets the loaded checkpoint and returns
  the world it leaves and the exception it raised, if any. The \<^verbatim>\<open>finally\<close> block
  runs in both cases.
\<close>

definition main ::
  "env \<Rightarrow> (pyval \<Rightarrow> world \<Rightarrow> world \<times> pyexn option) \<Rightarrow> world \<Rightarrow> world \<times> pyexn option" where
  "main env body w =
     (let start_after = load_checkpoint env (files w);
          w1 = start_checkpoint_saver w;
          (w2, raised) = body start_after w1;
          w3 = save_checkpoint env (stop_checkpoint_saver w2)
      in (w3, raised))"

text \<open>
  A run of the script: \<^verbatim>\<open>main()\<close>, then the interpreter exits and calls the hook
  registered with \<^verbatim>\<open>atexit.register(_handle_exit)\<close>, after a normal return and after
  an uncaught exception alike.
\<close>

definition run_script ::
  "env \<Rightarrow> (pyval \<Rightarrow> world \<Rightarrow> world \<times> pyexn option) \<Rightarrow> world \<Rightarrow> world \<times> pyexn option" where
  "run_script env body w =
     (let (w1, raised) = main env body w in (handle_exit env w1, raised))"

text \<open>
  A body during which \<^verbatim>\<open>SIGTERM\<close> arrives: the handler installed with
  \<^verbatim>\<open>signal.signal(signal.SIGTERM, _handle_exit)\<close> runs between two parts of the body and
  returns, and the body goes on.
\<close>

definition interrupted ::
  "env \<Rightarrow> (pyval \<Rightarrow> world \<Rightarrow> world) \<Rightarrow> (pyval \<Rightarrow> world \<Rightarrow> world \<times> pyexn option) \<Rightarrow>
   pyval \<Rightarrow> world \<Rightarrow> world \<times> pyexn option" where
  "interrupted env before after start_after w =
     after start_after (handle_exit env (before start_after w))"

fun saves :: "event list \<Rightarrow> nat" where
  "saves [] = 0"
| "saves (Saved v # es) = Suc (saves es)"
| "saves (e # es) = saves es"

section \<open>Runs of the program\<close>

text \<open>
  The globals as the module sets them when it is loaded, over a given file system.
\<close>

definition initial_world :: "filesystem \<Rightarrow> world" where
  "initial_world fs =
     \<lparr>last_checked = PNone, saver_stop = False, saver_alive = False, files = fs,
      output_file = [], trace = []\<rparr>"

text \<open>
  The body of the \<^verbatim>\<open>try\<close> block of \<^verbatim>\<open>main\<close> for \<^verbatim>\<open>--threads 1\<close>, in a run where
  the results file opens and the saver thread does not get to save: one worker has
  the generator to itself. An exception that leaves the worker stays in its future,
  so the block ends normally.
\<close>

definition one_worker ::
  "env \<Rightarrow> string \<Rightarrow> int \<Rightarrow> int \<Rightarrow> pyval \<Rightarrow> world \<Rightarrow> world \<times> pyexn option" where
  "one_worker env allowed min_len max_len start_after w =
     (fst (worker env (generate_usernames allowed min_len max_len start_after) w), None)"

text \<open>
  An environment for concrete runs: a \<^verbatim>\<open>json\<close> library that knows the checkpoint
  document of one candidate and the empty object, a network that answers every request
  with the same status, a disk without faults.
\<close>

definition example_env :: "string \<Rightarrow> int \<Rightarrow> env" where
  \<open>example_env candidate status =
     \<lparr>json_dump = (\<lambda>data. ''{"last": "'' @ candidate @ ''"}''),
      json_load = (\<lambda>t. if t = ''{"last": "'' @ candidate @ ''"}''
                       then Inr (PDict [(''last'', PStr candidate)])
                       else if t = ''{}'' then Inr (PDict [])
                       else Inl JSONDecodeError),
      requests_get = (\<lambda>now url user_agent. Inr status),
      random_choice = (\<lambda>now. 0),
      save_fault = (\<lambda>now. NoFault)\<rparr>\<close>

section \<open>Properties of a trace\<close>

text \<open>
  Every \<open>Probe u v\<close> of a trace comes right after \<open>Recorded u\<close> and sees the value
  \<open>v = PStr u\<close>; \<open>prev\<close> is the event before the trace, if any.
\<close>

fun recorded_first :: "event option \<Rightarrow> event list \<Rightarrow> bool" where
  "recorded_first prev [] = True"
| "recorded_first prev (e # es) =
     ((case e of Probe u v \<Rightarrow> prev = Some (Recorded u) \<and> v = PStr u | _ \<Rightarrow> True) \<and>
      recorded_first (Some e) es)"

text \<open>
  What follows a probe that returned \<^verbatim>\<open>"blocked"\<close>: the message, the sleep of 90
  seconds, and then nothing or the next pull from the generator.
\<close>

fun cooled :: "event list \<Rightarrow> bool" where
  "cooled [Printed m, Slept n] = (n = 90)"
| "cooled (Printed m # Slept n # Yielded u # es) = (n = 90)"
| "cooled es = False"

fun cooldown_follows :: "event list \<Rightarrow> bool" where
  "cooldown_follows [] = True"
| "cooldown_follows (e # es) =
     ((case e of Probed u r \<Rightarrow> r = ''blocked'' \<longrightarrow> cooled es | _ \<Rightarrow> True) \<and> cooldown_follows es)"

section \<open>The generator: flattening the loops\<close>

lemma inner_loop_started:
  "inner_loop A mn mx sa True xs = (filter (is_valid_instagram_username A mn mx) xs, True)"
  by (induction xs) auto

lemma inner_loop_not_started:
  "inner_loop A mn mx sa False xs =
     (if \<exists>u \<in> set (filter (is_valid_instagram_username A mn mx) xs). PStr u = sa
      then (tl (dropWhile (\<lambda>u. PStr u \<noteq> sa)
                 (filter (is_valid_instagram_username A mn mx) xs)), True)
      else ([], False))"
  by (induction xs) (auto simp: inner_loop_started)

lemma inner_loop_append:
  "inner_loop A mn mx sa st (xs @ ys) =
     (let (a, st') = inner_loop A mn mx sa st xs;
          (b, st'') = inner_loop A mn mx sa st' ys
      in (a @ b, st''))"
  by (induction xs arbitrary: st) (auto split: prod.splits)

lemma outer_loop_flat:
  "\<forall>l \<in> set ls. 0 \<le> l \<Longrightarrow>
   outer_loop A mn mx sa st ls =
     (fst (inner_loop A mn mx sa st (concat (map (\<lambda>l. product A (nat l)) ls))), None)"
proof (induction ls arbitrary: st)
  case Nil
  then show ?case by simp
next
  case (Cons l ls)
  then show ?case
    by (simp add: itertools_product_def inner_loop_append split: prod.splits)
qed

lemma generate_usernames_flat:
  assumes "0 \<le> mn"
  shows "generate_usernames A mn mx sa =
           (fst (inner_loop A mn mx sa (sa = PNone) (all_combos A mn mx)), None)"
  unfolding generate_usernames_def all_combos_def
  by (rule outer_loop_flat) (use assms in auto)

lemma generate_usernames_None:
  assumes "0 \<le> mn"
  shows "generate_usernames A mn mx PNone = (enumeration A mn mx, None)"
  by (simp add: generate_usernames_flat [OF assms] inner_loop_started enumeration_def)

lemma generate_usernames_PStr:
  assumes "0 \<le> mn"
  shows "generate_usernames A mn mx (PStr s) =
           (if s \<in> set (enumeration A mn mx)
            then tl (dropWhile (\<lambda>u. u \<noteq> s) (enumeration A mn mx)) else [], None)"
  by (auto simp: generate_usernames_flat [OF assms] inner_loop_not_started enumeration_def)

lemma outer_loop_started_indep:
  "outer_loop A mn mx sa True ls = outer_loop A mn mx sa' True ls"
  by (induction ls) (auto simp: inner_loop_started split: sum.splits prod.splits)

lemma outer_loop_never_started:
  "s \<notin> set (fst (outer_loop A mn mx PNone True ls)) \<Longrightarrow>
   fst (outer_loop A mn mx (PStr s) False ls) = []"
proof (induction ls)
  case Nil
  then show ?case by simp
next
  case (Cons l ls)
  then show ?case
    by (auto simp: inner_loop_started inner_loop_not_started split: sum.splits prod.splits)
qed

section \<open>The generator: what is enumerated, and in which order\<close>

lemma sorted_wrt_concat:
  "sorted_wrt P (concat xss) =
     ((\<forall>xs \<in> set xss. sorted_wrt P xs) \<and>
      sorted_wrt (\<lambda>xs ys. \<forall>x \<in> set xs. \<forall>y \<in> set ys. P x y) xss)"
  by (induction xss) (auto simp: sorted_wrt_append)

lemma index_of_nth:
  "distinct xs \<Longrightarrow> i < length xs \<Longrightarrow> index_of xs (xs ! i) = i"
proof (induction xs arbitrary: i)
  case Nil
  then show ?case by simp
next
  case (Cons x xs)
  then show ?case by (cases i) auto
qed

lemma sorted_wrt_index_of:
  "distinct xs \<Longrightarrow> sorted_wrt (\<lambda>a b. index_of xs a < index_of xs b) xs"
  by (simp add: sorted_wrt_iff_nth_less index_of_nth)

lemma length_product: "u \<in> set (product xs n) \<Longrightarrow> length u = n"
  by (induction n arbitrary: u) auto

lemma set_product: "set (product xs n) = {u. length u = n \<and> set u \<subseteq> set xs}"
proof (induction n)
  case 0
  then show ?case by auto
next
  case (Suc n)
  show ?case
  proof (rule set_eqI)
    fix u
    show "u \<in> set (product xs (Suc n)) \<longleftrightarrow> u \<in> {u. length u = Suc n \<and> set u \<subseteq> set xs}"
      by (cases u) (auto simp: Suc)
  qed
qed

lemma sorted_product:
  assumes "distinct xs"
  shows "sorted_wrt (\<lambda>u v. lex_less (map (index_of xs) u) (map (index_of xs) v)) (product xs n)"
proof (induction n)
  case 0
  then show ?case by simp
next
  case (Suc n)
  have "sorted_wrt (\<lambda>a b. \<forall>u\<in>set (map ((#) a) (product xs n)). \<forall>v\<in>set (map ((#) b) (product xs n)).
          lex_less (map (index_of xs) u) (map (index_of xs) v)) xs"
    by (rule sorted_wrt_mono_rel [OF _ sorted_wrt_index_of [OF assms]]) auto
  with Suc show ?case
    by (simp add: sorted_wrt_concat sorted_wrt_map)
qed

lemma sorted_all_combos:
  assumes "distinct A" "0 \<le> mn"
  shows "sorted_wrt (username_less A) (all_combos A mn mx)"
proof -
  have 1: "sorted_wrt (username_less A) (product A n)" for n
    by (rule sorted_wrt_mono_rel [OF _ sorted_product [OF assms(1)]])
       (auto simp: username_less_def dest: length_product)
  have 2: "sorted_wrt (\<lambda>k l. \<forall>u\<in>set (product A (nat k)). \<forall>v\<in>set (product A (nat l)).
              username_less A u v) [mn..mx]"
    by (rule sorted_wrt_mono_rel [OF _ sorted_wrt_upto])
       (use assms(2) in \<open>auto simp: username_less_def dest!: length_product\<close>)
  show ?thesis
    unfolding all_combos_def by (simp add: sorted_wrt_concat sorted_wrt_map 1 2)
qed

lemma lex_less_irrefl: "\<not> lex_less is is"
  by (induction "is") auto

lemma username_less_irrefl: "\<not> username_less A u u"
  by (simp add: username_less_def lex_less_irrefl)

lemma sorted_wrt_irrefl_distinct:
  "sorted_wrt P xs \<Longrightarrow> (\<And>x. \<not> P x x) \<Longrightarrow> distinct xs"
  by (induction xs) auto

lemma set_all_combos:
  "0 \<le> mn \<Longrightarrow>
   set (all_combos A mn mx) =
     {u. mn \<le> int (length u) \<and> int (length u) \<le> mx \<and> set u \<subseteq> set A}"
  unfolding all_combos_def by (auto simp: set_product)

lemma sorted_enumeration:
  "distinct A \<Longrightarrow> 0 \<le> mn \<Longrightarrow> sorted_wrt (username_less A) (enumeration A mn mx)"
  unfolding enumeration_def by (intro sorted_wrt_filter sorted_all_combos)

lemma distinct_enumeration:
  "distinct A \<Longrightarrow> 0 \<le> mn \<Longrightarrow> distinct (enumeration A mn mx)"
  by (rule sorted_wrt_irrefl_distinct [OF sorted_enumeration]) (auto simp: username_less_irrefl)

lemma set_enumeration:
  "0 \<le> mn \<Longrightarrow> set (enumeration A mn mx) =
     {u. set u \<subseteq> set A \<and> mn \<le> int (length u) \<and> int (length u) \<le> mx \<and>
         \<not> prefix ''.'' u \<and> \<not> suffix ''.'' u \<and> \<not> sublist ''..'' u}"
  unfolding enumeration_def
  by (auto simp: set_all_combos is_valid_instagram_username_def list_all_iff)

lemma dropWhile_neq_nth:
  "distinct xs \<Longrightarrow> k < length xs \<Longrightarrow> dropWhile (\<lambda>u. u \<noteq> xs ! k) xs = drop k xs"
proof (induction xs arbitrary: k)
  case Nil
  then show ?case by simp
next
  case (Cons x xs)
  then show ?case by (cases k) auto
qed

lemma concat_map_snoc:
  "xs \<noteq> [] \<Longrightarrow> concat (map f xs) = concat (map f (butlast xs)) @ f (last xs)"
  by (induction xs) auto

lemma product_snoc:
  assumes "xs \<noteq> []"
  shows "\<exists>ys. product xs n = ys @ [replicate n (last xs)]"
proof (induction n)
  case 0
  then show ?case by simp
next
  case (Suc n)
  then obtain ys where ys: "product xs n = ys @ [replicate n (last xs)]" by blast
  have "product xs (Suc n) =
          (concat (map (\<lambda>x. map ((#) x) (product xs n)) (butlast xs)) @ map ((#) (last xs)) ys)
          @ [replicate (Suc n) (last xs)]"
    using concat_map_snoc [OF assms, of "\<lambda>x. map ((#) x) (product xs n)"] by (simp add: ys)
  then show ?case by blast
qed

lemma all_combos_snoc:
  assumes "A \<noteq> []" and "0 \<le> mn" and "mn \<le> mx"
  shows "\<exists>ys. all_combos A mn mx = ys @ [replicate (nat mx) (last A)]"
proof -
  obtain ys where "product A (nat mx) = ys @ [replicate (nat mx) (last A)]"
    using product_snoc [OF assms(1)] by blast
  then have "all_combos A mn mx =
      (concat (map (\<lambda>l. product A (nat l)) [mn..mx - 1]) @ ys) @ [replicate (nat mx) (last A)]"
    unfolding all_combos_def by (simp add: upto_rec2 [OF assms(3)])
  then show ?thesis by blast
qed

lemma resume_after_last:
  assumes "distinct A" and "A \<noteq> []" and "0 \<le> mn" and "mn \<le> mx"
    and "is_valid_instagram_username A mn mx (replicate (nat mx) (last A))"
  shows "generate_usernames A mn mx (PStr (replicate (nat mx) (last A))) = ([], None)"
proof -
  let ?s = "replicate (nat mx) (last A)"
  obtain ys where "all_combos A mn mx = ys @ [?s]"
    using all_combos_snoc [OF assms(2,3,4)] by blast
  then have e: "enumeration A mn mx = filter (is_valid_instagram_username A mn mx) ys @ [?s]"
    using assms(5) by (simp add: enumeration_def)
  have "distinct (enumeration A mn mx)"
    by (rule distinct_enumeration [OF assms(1,3)])
  then have "?s \<notin> set (filter (is_valid_instagram_username A mn mx) ys)"
    unfolding e by simp
  then have "dropWhile (\<lambda>u. u \<noteq> ?s) (enumeration A mn mx) = [?s]"
    unfolding e by (subst dropWhile_append2) auto
  then show ?thesis
    by (simp add: generate_usernames_PStr [OF assms(3)] e)
qed

lemma resume_after_last_shipped:
  "generate_usernames ALLOWED MIN_LEN MAX_LEN (PStr ''____'') = ([], None)"
proof -
  have "generate_usernames ALLOWED MIN_LEN MAX_LEN
          (PStr (replicate (nat MAX_LEN) (last ALLOWED))) = ([], None)"
    by (rule resume_after_last)
       (simp_all add: ALLOWED_def MIN_LEN_def MAX_LEN_def is_valid_instagram_username_def
          numeral_eq_Suc suffix_to_prefix sublist_code)
  then show ?thesis
    by (simp add: ALLOWED_def MAX_LEN_def numeral_eq_Suc)
qed

lemma small_enumeration:
  "generate_usernames ''ab'' 1 2 PNone = ([''a'', ''b'', ''aa'', ''ab'', ''ba'', ''bb''], None)"
  by code_simp

text \<open>
  C1. For an alphabet without repeated characters and a non-negative \<^verbatim>\<open>MIN_LEN\<close>,
  \<^verbatim>\<open>generate_usernames\<close> without a resume value ends normally and yields exactly the
  valid candidates (every character in the alphabet, length between \<^verbatim>\<open>MIN_LEN\<close> and
  \<^verbatim>\<open>MAX_LEN\<close>, no leading or trailing dot, no two dots in a row), each once, in
  strictly increasing order: by length, then lexicographically by alphabet index.
  The sequence is a function of the configuration, so enumerating again gives the same
  sequence.
\<close>

theorem generate_usernames_enumerates:
  assumes "distinct allowed" and "0 \<le> min_len"
  shows "\<exists>us. generate_usernames allowed min_len max_len PNone = (us, None) \<and>
           set us = {u. set u \<subseteq> set allowed \<and>
                        min_len \<le> int (length u) \<and> int (length u) \<le> max_len \<and>
                        \<not> prefix ''.'' u \<and> \<not> suffix ''.'' u \<and> \<not> sublist ''..'' u} \<and>
           distinct us \<and> sorted_wrt (username_less allowed) us"
  using assms
  by (simp add: generate_usernames_None set_enumeration distinct_enumeration sorted_enumeration)

theorem generate_usernames_enumerates_witness:
  "(distinct ALLOWED \<and> 0 \<le> MIN_LEN \<and>
    (\<exists>us. generate_usernames ALLOWED MIN_LEN MAX_LEN PNone = (us, None) \<and>
           set us = {u. set u \<subseteq> set ALLOWED \<and>
                        MIN_LEN \<le> int (length u) \<and> int (length u) \<le> MAX_LEN \<and>
                        \<not> prefix ''.'' u \<and> \<not> suffix ''.'' u \<and> \<not> sublist ''..'' u} \<and>
           distinct us \<and> sorted_wrt (username_less ALLOWED) us)) \<and>
   (distinct ''ab'' \<and> (0::int) \<le> 1 \<and>
    generate_usernames ''ab'' 1 2 PNone = ([''a'', ''b'', ''aa'', ''ab'', ''ba'', ''bb''], None) \<and>
    sorted_wrt (username_less ''ab'') [''a'', ''b'', ''aa'', ''ab'', ''ba'', ''bb''])"
proof -
  have d: "distinct ALLOWED" by (simp add: ALLOWED_def)
  have m: "0 \<le> MIN_LEN" by (simp add: MIN_LEN_def)
  show ?thesis
    using generate_usernames_enumerates [OF d m, of MAX_LEN]
      generate_usernames_enumerates [of "''ab''" 1 2] d m
    by (simp add: small_enumeration)
qed

text \<open>
  C2. Under the same conditions, resuming after the candidate at position \<open>k\<close> of the
  full enumeration yields exactly the candidates from position \<open>k + 1\<close> on.
\<close>

theorem generate_usernames_resume:
  assumes "distinct allowed" and "0 \<le> min_len"
    and "generate_usernames allowed min_len max_len PNone = (us, e)"
    and "k < length us"
  shows "generate_usernames allowed min_len max_len (PStr (us ! k)) = (drop (Suc k) us, None)"
proof -
  have us: "us = enumeration allowed min_len max_len"
    using assms(2,3) by (simp add: generate_usernames_None)
  have "distinct us"
    unfolding us by (rule distinct_enumeration [OF assms(1,2)])
  then have "dropWhile (\<lambda>u. u \<noteq> us ! k) us = drop k us"
    using assms(4) by (rule dropWhile_neq_nth)
  then show ?thesis
    using assms(2,4) by (simp add: generate_usernames_PStr us [symmetric] tl_drop drop_Suc)
qed

theorem generate_usernames_resume_witness:
  "distinct ''ab'' \<and> (0::int) \<le> 1 \<and>
   generate_usernames ''ab'' 1 2 PNone = ([''a'', ''b'', ''aa'', ''ab'', ''ba'', ''bb''], None) \<and>
   (2::nat) < length [''a'', ''b'', ''aa'', ''ab'', ''ba'', ''bb''] \<and>
   generate_usernames ''ab'' 1 2 (PStr ''aa'') = ([''ab'', ''ba'', ''bb''], None)"
  using generate_usernames_resume
          [of "''ab''" 1 2 "[''a'', ''b'', ''aa'', ''ab'', ''ba'', ''bb'']" None 2]
  by (simp add: small_enumeration)

text \<open>
  C3, as amended. A resume value that the enumeration never yields is never reached:
  the flag \<^verbatim>\<open>started\<close> stays false and the generator yields nothing at all.
\<close>

theorem generate_usernames_unknown_resume:
  assumes "s \<notin> set (fst (generate_usernames allowed min_len max_len PNone))"
  shows "fst (generate_usernames allowed min_len max_len (PStr s)) = []"
  using assms unfolding generate_usernames_def
  by (simp add: outer_loop_never_started)

theorem generate_usernames_unknown_resume_witness:
  "''c'' \<notin> set (fst (generate_usernames ''ab'' 1 2 PNone)) \<and>
   fst (generate_usernames ''ab'' 1 2 (PStr ''c'')) = []"
  using generate_usernames_unknown_resume [of "''c''" "''ab''" 1 2]
  by (simp add: small_enumeration)

text \<open>
  C3 as the specification states it fails for the shipped configuration: the string
  \<^verbatim>\<open>zzzzz\<close> has five characters and is not enumerated, and resuming after it does not
  give the full enumeration.
\<close>

theorem generate_usernames_unknown_resume_counterexample:
  "''zzzzz'' \<notin> set (fst (generate_usernames ALLOWED MIN_LEN MAX_LEN PNone)) \<and>
   generate_usernames ALLOWED MIN_LEN MAX_LEN (PStr ''zzzzz'') \<noteq>
   generate_usernames ALLOWED MIN_LEN MAX_LEN PNone"
proof -
  have mn: "0 \<le> MIN_LEN" by (simp add: MIN_LEN_def)
  have a: "''a'' \<in> set (enumeration ALLOWED MIN_LEN MAX_LEN)"
    unfolding set_enumeration [OF mn]
    by (simp add: ALLOWED_def MIN_LEN_def MAX_LEN_def suffix_to_prefix sublist_code)
  have z: "''zzzzz'' \<notin> set (enumeration ALLOWED MIN_LEN MAX_LEN)"
    unfolding set_enumeration [OF mn] by (simp add: MAX_LEN_def)
  from a have "enumeration ALLOWED MIN_LEN MAX_LEN \<noteq> []" by auto
  with z show ?thesis
    by (simp add: generate_usernames_None [OF mn] generate_usernames_PStr [OF mn])
qed

section \<open>The probe\<close>

lemma check_username_cases:
  "check_username rg c u =
     (case rg (''https://www.instagram.com/'' @ u @ ''/'') (USER_AGENTS ! (c mod 4)) of
        Inl e \<Rightarrow> ''error''
      | Inr st \<Rightarrow> if st = 404 then ''available'' else if st = 200 then ''taken''
                  else if st = 403 \<or> st = 429 then ''blocked'' else ''unknown'')"
  by (simp add: check_username_def USER_AGENTS_def split: sum.splits)

text \<open>
  C5. Whatever the candidate, \<^verbatim>\<open>check_username\<close> returns one of the five outcomes:
  \<^verbatim>\<open>"available"\<close> for status 404, \<^verbatim>\<open>"taken"\<close> for 200, \<^verbatim>\<open>"blocked"\<close> for 403 and for
  429, \<^verbatim>\<open>"unknown"\<close> for every other status, and \<^verbatim>\<open>"error"\<close> when the request raised.
\<close>

theorem check_username_outcomes:
  assumes "net (''https://www.instagram.com/'' @ username @ ''/'')
             (USER_AGENTS ! (choice mod 4)) = response"
  shows "check_username net choice username
           \<in> {''available'', ''taken'', ''blocked'', ''unknown'', ''error''} \<and>
         (response = Inr 404 \<longrightarrow> check_username net choice username = ''available'') \<and>
         (response = Inr 200 \<longrightarrow> check_username net choice username = ''taken'') \<and>
         (response = Inr 403 \<or> response = Inr 429 \<longrightarrow>
            check_username net choice username = ''blocked'') \<and>
         (\<forall>status. response = Inr status \<and> status \<notin> {404, 200, 403, 429} \<longrightarrow>
            check_username net choice username = ''unknown'') \<and>
         (\<forall>e. response = Inl e \<longrightarrow> check_username net choice username = ''error'')"
  using assms by (auto simp: check_username_cases split: sum.splits)

theorem check_username_outcomes_witness:
  "check_username (\<lambda>url user_agent. Inr 404) 0 ''ab'' = ''available'' \<and>
   check_username (\<lambda>url user_agent. Inr 200) 1 ''ab'' = ''taken'' \<and>
   check_username (\<lambda>url user_agent. Inr 403) 2 ''ab'' = ''blocked'' \<and>
   check_username (\<lambda>url user_agent. Inr 429) 3 ''ab'' = ''blocked'' \<and>
   check_username (\<lambda>url user_agent. Inr 500) 4 ''ab'' = ''unknown'' \<and>
   check_username (\<lambda>url user_agent. Inl RequestException) 5 ''ab'' = ''error''"
  using check_username_outcomes [of "\<lambda>url user_agent. Inr 404" "''ab''" 0 "Inr 404"]
    check_username_outcomes [of "\<lambda>url user_agent. Inr 200" "''ab''" 1 "Inr 200"]
    check_username_outcomes [of "\<lambda>url user_agent. Inr 403" "''ab''" 2 "Inr 403"]
    check_username_outcomes [of "\<lambda>url user_agent. Inr 429" "''ab''" 3 "Inr 429"]
    check_username_outcomes [of "\<lambda>url user_agent. Inr 500" "''ab''" 4 "Inr 500"]
    check_username_outcomes [of "\<lambda>url user_agent. Inl RequestException" "''ab''" 5 "Inl RequestException"]
  by simp

section \<open>The checkpoint store\<close>

lemma trace_emit [simp]: "trace (emit es w) = trace w @ es"
  by (simp add: emit_def)

lemma files_emit [simp]: "files (emit es w) = files w"
  by (simp add: emit_def)

lemma last_checked_emit [simp]: "last_checked (emit es w) = last_checked w"
  by (simp add: emit_def)

lemma saver_stop_emit [simp]: "saver_stop (emit es w) = saver_stop w"
  by (simp add: emit_def)

lemma tmp_neq: "CHECKPOINT_FILE @ ''.tmp'' \<noteq> CHECKPOINT_FILE"
  by simp

text \<open>
  C6. When a save goes through without a fault, and the \<^verbatim>\<open>json\<close> library reads back
  the document it wrote (as it does for a string and for \<^verbatim>\<open>None\<close>), loading the
  checkpoint from the resulting file system returns the value that was saved.
\<close>

theorem checkpoint_round_trip:
  assumes "save_fault env (length (trace w)) = NoFault"
    and "json_load env (json_dump env (PDict [(''last'', last_checked w)])) =
           Inr (PDict [(''last'', last_checked w)])"
  shows "load_checkpoint env (files (save_checkpoint env w)) = last_checked w"
  using assms
  by (simp add: save_checkpoint_def load_checkpoint_def load_checkpoint_try_def dict_get_def)

theorem checkpoint_round_trip_witness:
  \<open>save_fault (example_env ''aa'' 404) (length (trace ((initial_world Map.empty)\<lparr>last_checked := PStr ''aa''\<rparr>))) = NoFault \<and>
   json_load (example_env ''aa'' 404) (json_dump (example_env ''aa'' 404) (PDict [(''last'', PStr ''aa'')])) =
     Inr (PDict [(''last'', PStr ''aa'')]) \<and>
   load_checkpoint (example_env ''aa'' 404)
     (files (save_checkpoint (example_env ''aa'' 404) ((initial_world Map.empty)\<lparr>last_checked := PStr ''aa''\<rparr>))) = PStr ''aa''\<close>
  using checkpoint_round_trip [of "example_env ''aa'' 404" "(initial_world Map.empty)\<lparr>last_checked := PStr ''aa''\<rparr>"]
  by (simp add: example_env_def initial_world_def)

text \<open>
  C10. \<^verbatim>\<open>load_checkpoint\<close> always returns a value: \<^verbatim>\<open>None\<close> when the file is absent,
  when it cannot be read, when its text is not JSON, when the JSON has no field
  \<^verbatim>\<open>"last"\<close> (an object without it, or no object at all), and whenever the body of its
  \<^verbatim>\<open>try\<close> block raised. It returns a string only when the file holds a JSON object
  that maps \<^verbatim>\<open>"last"\<close> to that string.
\<close>

theorem load_checkpoint_total:
  "(fs CHECKPOINT_FILE = None \<longrightarrow> load_checkpoint env fs = PNone) \<and>
   (fs CHECKPOINT_FILE = Some Unreadable \<longrightarrow> load_checkpoint env fs = PNone) \<and>
   (fs CHECKPOINT_FILE = Some (Text t) \<and> json_load env t = Inl e \<longrightarrow>
      load_checkpoint env fs = PNone) \<and>
   (fs CHECKPOINT_FILE = Some (Text t) \<and> json_load env t = Inr data \<and>
    (\<forall>kvs. data = PDict kvs \<longrightarrow> map_of kvs ''last'' = None) \<longrightarrow>
      load_checkpoint env fs = PNone) \<and>
   (load_checkpoint_try env fs = Inl e \<longrightarrow> load_checkpoint env fs = PNone) \<and>
   (load_checkpoint env fs = PStr s \<longrightarrow>
      (\<exists>t kvs. fs CHECKPOINT_FILE = Some (Text t) \<and> json_load env t = Inr (PDict kvs) \<and>
                map_of kvs ''last'' = Some (PStr s)))"
  by (auto simp: load_checkpoint_def load_checkpoint_try_def dict_get_def
      split: option.splits file_state.splits sum.splits pyval.splits)

theorem load_checkpoint_total_witness:
  \<open>load_checkpoint (example_env ''aa'' 404) Map.empty = PNone \<and>
   load_checkpoint (example_env ''aa'' 404) [CHECKPOINT_FILE \<mapsto> Unreadable] = PNone \<and>
   load_checkpoint (example_env ''aa'' 404) [CHECKPOINT_FILE \<mapsto> Text ''{"last": ''] = PNone \<and>
   load_checkpoint (example_env ''aa'' 404) [CHECKPOINT_FILE \<mapsto> Text ''{}''] = PNone \<and>
   load_checkpoint (example_env ''aa'' 404) [CHECKPOINT_FILE \<mapsto> Text ''{"last": "aa"}''] = PStr ''aa'' \<and>
   (\<exists>t kvs. [CHECKPOINT_FILE \<mapsto> Text ''{"last": "aa"}''] CHECKPOINT_FILE = Some (Text t) \<and>
             json_load (example_env ''aa'' 404) t = Inr (PDict kvs) \<and>
             map_of kvs ''last'' = Some (PStr ''aa''))\<close>
proof -
  have load: \<open>load_checkpoint (example_env ''aa'' 404) [CHECKPOINT_FILE \<mapsto> Text ''{"last": "aa"}'']
               = PStr ''aa''\<close>
    by (simp add: load_checkpoint_def load_checkpoint_try_def dict_get_def example_env_def)
  show ?thesis
    using load_checkpoint_total [where fs = Map.empty and env = "example_env ''aa'' 404"]
      load_checkpoint_total [where fs = "[CHECKPOINT_FILE \<mapsto> Unreadable]"
        and env = "example_env ''aa'' 404"]
      load_checkpoint_total [where fs = \<open>[CHECKPOINT_FILE \<mapsto> Text ''{"last": '']\<close>
        and env = "example_env ''aa'' 404" and t = \<open>''{"last": ''\<close> and e = JSONDecodeError]
      load_checkpoint_total [where fs = "[CHECKPOINT_FILE \<mapsto> Text ''{}'']"
        and env = "example_env ''aa'' 404" and t = "''{}''" and data = "PDict []"]
      load_checkpoint_total [where fs = \<open>[CHECKPOINT_FILE \<mapsto> Text ''{"last": "aa"}'']\<close>
        and env = "example_env ''aa'' 404" and s = "''aa''"]
      load
    by (simp add: example_env_def)
qed

section \<open>The trace of a worker\<close>

lemma trace_save_checkpoint [simp]:
  "trace (save_checkpoint env w) = trace w @ [Saved (last_checked w)]"
  by (simp add: save_checkpoint_def Let_def)

lemma last_checked_save_checkpoint [simp]:
  "last_checked (save_checkpoint env w) = last_checked w"
  by (simp add: save_checkpoint_def Let_def)

lemma saver_stop_save_checkpoint [simp]:
  "saver_stop (save_checkpoint env w) = saver_stop w"
  by (simp add: save_checkpoint_def Let_def)

lemma trace_handle_exit [simp]:
  "trace (handle_exit env w) = trace w @ [Saver_stopped, Saved (last_checked w)]"
  by (simp add: handle_exit_def stop_checkpoint_saver_def)

lemma last_checked_handle_exit [simp]:
  "last_checked (handle_exit env w) = last_checked w"
  by (simp add: handle_exit_def stop_checkpoint_saver_def)

lemma saver_stop_handle_exit [simp]: "saver_stop (handle_exit env w)"
  by (simp add: handle_exit_def stop_checkpoint_saver_def)

lemma iteration_trace:
  "\<exists>r rest. trace (iteration env u w) =
               trace w @ Yielded u # Recorded u # Probe u (PStr u) # Probed u r # rest \<and>
     (if r = ''blocked'' then rest = [Printed ''[RATE LIMIT] Sleeping 90 seconds...'', Slept 90]
      else (\<exists>m a v. rest = [Printed m, Appended a, Saved v, Slept_random]) \<or>
           (\<exists>m. rest = [Printed m, Slept_random]) \<or> rest = [Slept_random])"
  by (simp add: iteration_def dispatch_def Let_def)

lemma recorded_first_Yielded:
  "recorded_first prev (Yielded u # es) = recorded_first None (Yielded u # es)"
  by simp

lemma worker_events:
  "\<exists>es. trace (fst (worker env (us, ending) w)) = trace w @ es \<and>
        (\<forall>prev. recorded_first prev es) \<and> cooldown_follows es \<and> probes es = us \<and>
        (es = [] \<or> (\<exists>u rest. es = Yielded u # rest))"
proof (induction us arbitrary: w)
  case Nil
  then show ?case by simp
next
  case (Cons u us)
  obtain r rest where it: "trace (iteration env u w) =
               trace w @ Yielded u # Recorded u # Probe u (PStr u) # Probed u r # rest"
    and rest: "if r = ''blocked'' then rest = [Printed ''[RATE LIMIT] Sleeping 90 seconds...'', Slept 90]
      else (\<exists>m a v. rest = [Printed m, Appended a, Saved v, Slept_random]) \<or>
           (\<exists>m. rest = [Printed m, Slept_random]) \<or> rest = [Slept_random]"
    using iteration_trace [of env u w] by blast
  obtain es where es: "trace (fst (worker env (us, ending) (iteration env u w))) =
      trace (iteration env u w) @ es"
    and rf: "\<And>prev. recorded_first prev es" and cf: "cooldown_follows es"
    and pr: "probes es = us" and hd: "es = [] \<or> (\<exists>u rest. es = Yielded u # rest)"
    using Cons.IH [of "iteration env u w"] by blast
  let ?es = "Yielded u # Recorded u # Probe u (PStr u) # Probed u r # rest @ es"
  have 1: "trace (fst (worker env (u # us, ending) w)) = trace w @ ?es"
    by (simp add: es it)
  have 2: "recorded_first prev ?es" for prev
    using rest rf by (auto split: if_splits)
  have 3: "cooldown_follows ?es"
    using rest cf hd by (auto split: if_splits)
  have 4: "probes ?es = u # us"
    using rest pr by (auto split: if_splits)
  from 1 2 3 4 show ?case by blast
qed

lemma worker_ending: "snd (worker env (us, ending) w) = ending"
  by (induction us arbitrary: w) auto





lemma cooldown_follows_split:
  "cooldown_follows es \<Longrightarrow> es = before @ Probed u ''blocked'' # after \<Longrightarrow> cooled after"
proof (induction before arbitrary: es)
  case Nil
  then show ?case by auto
next
  case (Cons b before)
  then show ?case by (cases es) auto
qed

lemma cooled_iff:
  "cooled es \<longleftrightarrow> (\<exists>m rest. es = Printed m # Slept 90 # rest \<and>
                     (rest = [] \<or> (\<exists>v rest'. rest = Yielded v # rest')))"
  by (induction es rule: cooled.induct) auto



lemma saves_append: "saves (xs @ ys) = saves xs + saves ys"
  by (induction xs rule: saves.induct) auto

lemma trace_initial_world: "trace (initial_world fs) = []"
  by (simp add: initial_world_def)

lemma example_worker_trace:
  "trace (fst (worker (example_env ''aa'' 429) ([''a'', ''b''], None) (initial_world Map.empty))) =
     [Yielded ''a'', Recorded ''a'', Probe ''a'' (PStr ''a''), Probed ''a'' ''blocked'',
      Printed ''[RATE LIMIT] Sleeping 90 seconds...'', Slept 90,
      Yielded ''b'', Recorded ''b'', Probe ''b'' (PStr ''b''), Probed ''b'' ''blocked'',
      Printed ''[RATE LIMIT] Sleeping 90 seconds...'', Slept 90]"
  by code_simp



text \<open>
  C8. A probe that returns \<^verbatim>\<open>"blocked"\<close> is followed by the message and the sleep of
  90 seconds, and after them by nothing or by the next pull from the generator. The
  worker ends only as the generator ends, and it probes exactly the candidates the
  generator yields, each as often as it is yielded: a blocked candidate is not
  probed again.
\<close>

theorem worker_blocked_cooldown:
  assumes "trace (fst (worker env (us, ending) w)) = trace w @ es"
  shows "snd (worker env (us, ending) w) = ending \<and> probes es = us \<and>
         (\<forall>before u after. es = before @ Probed u ''blocked'' # after \<longrightarrow>
            (\<exists>m rest. after = Printed m # Slept 90 # rest \<and>
                       (rest = [] \<or> (\<exists>v rest'. rest = Yielded v # rest'))))"
proof -
  obtain es' where "trace (fst (worker env (us, ending) w)) = trace w @ es'"
    and "cooldown_follows es'" and "probes es' = us"
    using worker_events [of env us ending w] by blast
  with assms have cf: "cooldown_follows es" and pr: "probes es = us" by simp_all
  have "cooled after" if "es = before @ Probed u ''blocked'' # after" for before u after
    using cooldown_follows_split [OF cf that] .
  then show ?thesis
    using pr by (simp add: worker_ending cooled_iff)
qed

theorem worker_blocked_cooldown_witness:
  "trace (fst (worker (example_env ''aa'' 429) ([''a'', ''b''], None) (initial_world Map.empty))) =
     trace (initial_world Map.empty) @
     ([Yielded ''a'', Recorded ''a'', Probe ''a'' (PStr ''a'')] @ Probed ''a'' ''blocked'' #
      [Printed ''[RATE LIMIT] Sleeping 90 seconds...'', Slept 90,
       Yielded ''b'', Recorded ''b'', Probe ''b'' (PStr ''b''), Probed ''b'' ''blocked'',
       Printed ''[RATE LIMIT] Sleeping 90 seconds...'', Slept 90]) \<and>
   snd (worker (example_env ''aa'' 429) ([''a'', ''b''], None) (initial_world Map.empty)) = None \<and>
   probes ([Yielded ''a'', Recorded ''a'', Probe ''a'' (PStr ''a'')] @ Probed ''a'' ''blocked'' #
      [Printed ''[RATE LIMIT] Sleeping 90 seconds...'', Slept 90,
       Yielded ''b'', Recorded ''b'', Probe ''b'' (PStr ''b''), Probed ''b'' ''blocked'',
       Printed ''[RATE LIMIT] Sleeping 90 seconds...'', Slept 90]) = [''a'', ''b'']"
  using worker_blocked_cooldown
    [of "example_env ''aa'' 429" "[''a'', ''b'']" None "initial_world Map.empty"
      "[Yielded ''a'', Recorded ''a'', Probe ''a'' (PStr ''a'')] @ Probed ''a'' ''blocked'' #
      [Printed ''[RATE LIMIT] Sleeping 90 seconds...'', Slept 90,
       Yielded ''b'', Recorded ''b'', Probe ''b'' (PStr ''b''), Probed ''b'' ''blocked'',
       Printed ''[RATE LIMIT] Sleeping 90 seconds...'', Slept 90]"]
  unfolding example_worker_trace trace_initial_world by simp

section \<open>Leaving the script\<close>

text \<open>
  C9, as amended. Whether the body of \<^verbatim>\<open>main\<close> returns or raises, the script ends
  with the saver stopped and with two stop-and-save pairs after the body: one from the
  \<^verbatim>\<open>finally\<close> block and one from the exit hook. A \<^verbatim>\<open>SIGTERM\<close> that arrives during the
  body adds its own stop and save at that point and the body resumes.
\<close>

theorem run_script_stops_and_saves:
  assumes "body (load_checkpoint env (files w)) (start_checkpoint_saver w) = (w2, raised)"
  shows "snd (run_script env body w) = raised \<and>
         saver_stop (fst (run_script env body w)) \<and>
         trace (fst (run_script env body w)) =
           trace w2 @ [Saver_stopped, Saved (last_checked w2),
                       Saver_stopped, Saved (last_checked w2)] \<and>
         saves (trace (fst (run_script env body w))) = saves (trace w2) + 2 \<and>
         (\<forall>before after. body = interrupted env before after \<longrightarrow>
            (\<exists>w1. (w2, raised) = after (load_checkpoint env (files w)) w1 \<and> saver_stop w1 \<and>
                   trace w1 =
                     trace (before (load_checkpoint env (files w)) (start_checkpoint_saver w)) @
                     [Saver_stopped,
                      Saved (last_checked
                        (before (load_checkpoint env (files w)) (start_checkpoint_saver w)))]))"
proof -
  have run: "run_script env body w =
      (handle_exit env (save_checkpoint env (stop_checkpoint_saver w2)), raised)"
    using assms by (simp add: run_script_def main_def Let_def)
  have sig: "\<exists>w1. (w2, raised) = after (load_checkpoint env (files w)) w1 \<and> saver_stop w1 \<and>
                   trace w1 =
                     trace (before (load_checkpoint env (files w)) (start_checkpoint_saver w)) @
                     [Saver_stopped,
                      Saved (last_checked
                        (before (load_checkpoint env (files w)) (start_checkpoint_saver w)))]"
    if "body = interrupted env before after" for before after
    using assms unfolding that interrupted_def
    by (intro exI [of _ "handle_exit env
          (before (load_checkpoint env (files w)) (start_checkpoint_saver w))"]) simp
  show ?thesis
    using sig by (simp add: run saves_append stop_checkpoint_saver_def)
qed

lemma example_interrupted_saves:
  "saves (trace (fst (interrupted (example_env ''aa'' 200) (\<lambda>start_after w. w)
            (one_worker (example_env ''aa'' 200) ''ab'' 1 1)
            (load_checkpoint (example_env ''aa'' 200) (files (initial_world Map.empty)))
            (start_checkpoint_saver (initial_world Map.empty))))) = 1"
  by code_simp

theorem run_script_stops_and_saves_witness:
  "snd (run_script (example_env ''aa'' 200)
          (interrupted (example_env ''aa'' 200) (\<lambda>start_after w. w)
             (one_worker (example_env ''aa'' 200) ''ab'' 1 1))
          (initial_world Map.empty)) =
     snd (interrupted (example_env ''aa'' 200) (\<lambda>start_after w. w)
            (one_worker (example_env ''aa'' 200) ''ab'' 1 1)
            (load_checkpoint (example_env ''aa'' 200) (files (initial_world Map.empty)))
            (start_checkpoint_saver (initial_world Map.empty))) \<and>
   saver_stop (fst (run_script (example_env ''aa'' 200)
          (interrupted (example_env ''aa'' 200) (\<lambda>start_after w. w)
             (one_worker (example_env ''aa'' 200) ''ab'' 1 1))
          (initial_world Map.empty))) \<and>
   saves (trace (fst (run_script (example_env ''aa'' 200)
          (interrupted (example_env ''aa'' 200) (\<lambda>start_after w. w)
             (one_worker (example_env ''aa'' 200) ''ab'' 1 1))
          (initial_world Map.empty)))) = 3"
  using run_script_stops_and_saves
    [where env = "example_env ''aa'' 200"
       and body = "interrupted (example_env ''aa'' 200) (\<lambda>start_after w. w)
             (one_worker (example_env ''aa'' 200) ''ab'' 1 1)"
       and w = "initial_world Map.empty"
       and ?w2.0 = "fst (interrupted (example_env ''aa'' 200) (\<lambda>start_after w. w)
            (one_worker (example_env ''aa'' 200) ''ab'' 1 1)
            (load_checkpoint (example_env ''aa'' 200) (files (initial_world Map.empty)))
            (start_checkpoint_saver (initial_world Map.empty)))"
       and raised = "snd (interrupted (example_env ''aa'' 200) (\<lambda>start_after w. w)
            (one_worker (example_env ''aa'' 200) ''ab'' 1 1)
            (load_checkpoint (example_env ''aa'' 200) (files (initial_world Map.empty)))
            (start_checkpoint_saver (initial_world Map.empty)))"]
  by (simp add: saves_append example_interrupted_saves)

text \<open>
  C9 as the specification states it fails with the shipped constants: when the
  checkpoint file names the last candidate \<^verbatim>\<open>____\<close>, the generator yields nothing, the
  single worker returns at once, the script ends normally, and the checkpoint is saved
  twice on the way out, not once.
\<close>

lemma example_run:
  \<open>trace (fst (run_script (example_env ''____'' 200)
            (one_worker (example_env ''____'' 200) ALLOWED MIN_LEN MAX_LEN)
            (initial_world [CHECKPOINT_FILE \<mapsto> Text ''{"last": "____"}'']))) =
     [Saver_started, Saver_stopped, Saved PNone, Saver_stopped, Saved PNone]\<close>
proof -
  have load: \<open>load_checkpoint (example_env ''____'' 200)
                [CHECKPOINT_FILE \<mapsto> Text ''{"last": "____"}''] = PStr ''____''\<close>
    by (simp add: load_checkpoint_def load_checkpoint_try_def dict_get_def example_env_def)
  show ?thesis
    by (simp add: run_script_def main_def one_worker_def load resume_after_last_shipped
        start_checkpoint_saver_def stop_checkpoint_saver_def initial_world_def)
qed

theorem run_script_saves_counterexample:
  \<open>saves (trace (fst (run_script (example_env ''____'' 200)
            (one_worker (example_env ''____'' 200) ALLOWED MIN_LEN MAX_LEN)
            (initial_world [CHECKPOINT_FILE \<mapsto> Text ''{"last": "____"}''])))) = 2\<close>
  by (simp add: example_run)

end
